theory Spec2Isabelle
  imports Main "HOL-Library.AList"
begin

section \<open>Contribution leaderboard: a model of \<open>scripts/contrib_tracker.py\<close>\<close>

text \<open>
  The script talks to a REST API, accumulates per-participant counters and renders a
  sorted table. The model below follows the script function by function.

  \<^item> Values decoded from JSON are the datatype \<open>json\<close>; the operations Python applies
    to them (truth value, iteration, \<open>.get\<close>, \<open>+=\<close>) are total functions that return
    the exception as a value where Python raises. JSON numbers with a fraction are
    outside the model (the script would compute with floats there).
  \<^item> The network is an environment \<open>env\<close>: the response to the \<open>n\<close>-th request of the
    run and the clock value read while that response is handled. Every theorem is
    about an arbitrary environment.
  \<^item> The state threaded through the run, \<open>world\<close>, logs the requests sent and the
    sleeps taken, in order.
  \<^item> The paging loops are \<open>while True\<close> loops that need not end; they are partial
    functions into \<open>option\<close>, where \<open>None\<close> is a loop that never returns.
  \<^item> Messages printed to stdout and stderr, and the headers sent with each request
    (the \<open>Accept\<close> header and the token), are not modelled.
\<close>

subsection \<open>JSON values and the Python operations on them\<close>

datatype json =
    JNull
  | JBool bool
  | JInt int
  | JStr string
  | JArr "json list"
  | JObj "(string \<times> json) list"

datatype error =
    SystemExit int
  | ValueError
  | TypeError
  | AttributeError
  | JSONDecodeError

text \<open>Python's truth value of a decoded JSON value (\<open>if not x\<close>).\<close>

fun truthy :: "json \<Rightarrow> bool" where
  "truthy JNull = False"
| "truthy (JBool b) = b"
| "truthy (JInt n) = (n \<noteq> 0)"
| "truthy (JStr s) = (s \<noteq> [])"
| "truthy (JArr xs) = (xs \<noteq> [])"
| "truthy (JObj kvs) = (kvs \<noteq> [])"

text \<open>
  Iterating a value (\<open>for it in v\<close>, \<open>list.extend(v)\<close>): a list yields its elements,
  a dict its keys, a string its characters; anything else is not iterable.
  \<open>len(v)\<close> of these three is the number of elements yielded.
\<close>

fun py_iter :: "json \<Rightarrow> error + json list" where
  "py_iter (JArr xs) = Inr xs"
| "py_iter (JObj kvs) = Inr (map (\<lambda>kv. JStr (fst kv)) kvs)"
| "py_iter (JStr s) = Inr (map (\<lambda>c. JStr [c]) s)"
| "py_iter _ = Inl TypeError"

text \<open>\<open>v.get(key)\<close>: only a dict has the method; a missing key gives \<open>None\<close>.\<close>

fun py_get :: "json \<Rightarrow> string \<Rightarrow> error + json option" where
  "py_get (JObj kvs) k = Inr (map_of kvs k)"
| "py_get _ k = Inl AttributeError"

text \<open>\<open>n + v\<close> for an int \<open>n\<close>: defined for ints and bools (a bool counts as 0 or 1).\<close>

fun py_add :: "int \<Rightarrow> json \<Rightarrow> error + int" where
  "py_add n (JInt m) = Inr (n + m)"
| "py_add n (JBool b) = Inr (n + (if b then 1 else 0))"
| "py_add n _ = Inl TypeError"

text \<open>
  \<open>int(s)\<close> for a string, base 10: surrounding whitespace is dropped, one sign may
  come first, and the digits may be grouped by single underscores. Strings are bytes
  here, so only ASCII digits and whitespace are recognised; the interpreter's limit on
  the number of digits is not modelled.
\<close>

definition is_space :: "char \<Rightarrow> bool" where
  "is_space c = (let n = (of_char c :: nat) in (9 \<le> n \<and> n \<le> 13) \<or> (28 \<le> n \<and> n \<le> 32))"

definition is_digit :: "char \<Rightarrow> bool" where
  "is_digit c = (let n = (of_char c :: nat) in 48 \<le> n \<and> n \<le> 57)"

definition digit_val :: "char \<Rightarrow> nat" where
  "digit_val c = of_char c - 48"

fun parse_digits :: "bool \<Rightarrow> nat \<Rightarrow> string \<Rightarrow> nat option" where
  "parse_digits prev acc [] = (if prev then Some acc else None)"
| "parse_digits prev acc (c # cs) =
     (if is_digit c then parse_digits True (acc * 10 + digit_val c) cs
      else if c = CHR ''_'' \<and> prev then parse_digits False acc cs
      else None)"

definition strip :: "string \<Rightarrow> string" where
  "strip s = rev (dropWhile is_space (rev (dropWhile is_space s)))"

definition py_int :: "string \<Rightarrow> int option" where
  "py_int s =
     (case strip s of
        [] \<Rightarrow> None
      | c # cs \<Rightarrow>
          if c = CHR ''-'' then map_option (\<lambda>n. - int n) (parse_digits False 0 cs)
          else if c = CHR ''+'' then map_option int (parse_digits False 0 cs)
          else map_option int (parse_digits False 0 (c # cs)))"

subsection \<open>Requests, responses, the environment and the state of a run\<close>

record request =
  req_url :: string
  req_params :: "(string \<times> json) list"

text \<open>
  Of a response the script reads the status code, two headers and the decoded body;
  \<open>body\<close> is \<open>None\<close> when \<open>resp.json()\<close> raises.
\<close>

record response =
  status_code :: int
  headers :: "string \<rightharpoonup> string"
  body :: "json option"

record env =
  respond :: "nat \<Rightarrow> request \<Rightarrow> response"
  clock :: "nat \<Rightarrow> int"

record world =
  sent :: "request list"
  sleeps :: "int list"

definition PER_PAGE :: nat where
  "PER_PAGE = 100"

definition REPOS :: "string list" where
  "REPOS = [''NepTechTribe/CodeVault'', ''NepTechTribe/EventLog'']"

text \<open>\<open>requests.get\<close>: the request is logged, the environment answers it.\<close>

definition http_get :: "env \<Rightarrow> request \<Rightarrow> world \<Rightarrow> response \<times> world" where
  "http_get e req w = (respond e (length (sent w)) req, w\<lparr>sent := sent w @ [req]\<rparr>)"

definition sleep :: "int \<Rightarrow> world \<Rightarrow> world" where
  "sleep wait w = w\<lparr>sleeps := sleeps w @ [wait]\<rparr>"

subsection \<open>\<open>handle_rate_limit\<close>\<close>

definition handle_rate_limit :: "env \<Rightarrow> response \<Rightarrow> world \<Rightarrow> error + (bool \<times> world)" where
  "handle_rate_limit e resp w =
     (if status_code resp = 403 then
        (let rem = headers resp ''X-RateLimit-Remaining'';
             reset = headers resp ''X-RateLimit-Reset''
         in case reset of
              None \<Rightarrow> Inr (False, w)
            | Some r \<Rightarrow>
                if rem = Some ''0'' \<and> r \<noteq> [] then
                  (case py_int r of
                     None \<Rightarrow> Inl ValueError
                   | Some reset_ts \<Rightarrow>
                       let wait = max 0 (reset_ts - clock e (length (sent w))) + 2
                       in Inr (True, sleep wait w))
                else Inr (False, w))
      else Inr (False, w))"

subsection \<open>\<open>fetch_contributors_for_repo\<close>\<close>

definition contributors_request :: "string \<Rightarrow> int \<Rightarrow> request" where
  "contributors_request repo page =
     \<lparr>req_url = ''https://api.github.com/repos/'' @ repo @ ''/contributors'',
      req_params = [(''per_page'', JInt (int PER_PAGE)), (''page'', JInt page)]\<rparr>"

partial_function (option) fetch_contributors_loop ::
  "env \<Rightarrow> string \<Rightarrow> int \<Rightarrow> json list \<Rightarrow> world \<Rightarrow> (error + json list \<times> world) option" where
  "fetch_contributors_loop e repo page contributors w =
     (case http_get e (contributors_request repo page) w of
        (resp, w1) \<Rightarrow>
          (case handle_rate_limit e resp w1 of
             Inl err \<Rightarrow> Some (Inl err)
           | Inr (retry, w2) \<Rightarrow>
               if retry then fetch_contributors_loop e repo page contributors w2
               else if status_code resp \<noteq> 200 then Some (Inr (contributors, w2))
               else
                 (case body resp of
                    None \<Rightarrow> Some (Inl JSONDecodeError)
                  | Some page_items \<Rightarrow>
                      if \<not> truthy page_items then Some (Inr (contributors, w2))
                      else
                        (case py_iter page_items of
                           Inl err \<Rightarrow> Some (Inl err)
                         | Inr items \<Rightarrow>
                             if length items < PER_PAGE
                             then Some (Inr (contributors @ items, w2))
                             else fetch_contributors_loop e repo (page + 1)
                                    (contributors @ items) w2))))"

declare fetch_contributors_loop.simps [code]

definition fetch_contributors_for_repo ::
  "env \<Rightarrow> string \<Rightarrow> world \<Rightarrow> (error + json list \<times> world) option" where
  "fetch_contributors_for_repo e repo w = fetch_contributors_loop e repo 1 [] w"

subsection \<open>\<open>fetch_issues_and_prs_for_author\<close>\<close>

definition issues_request :: "string \<Rightarrow> string \<Rightarrow> int \<Rightarrow> request" where
  "issues_request repo author page =
     \<lparr>req_url = ''https://api.github.com/repos/'' @ repo @ ''/issues'',
      req_params = [(''per_page'', JInt (int PER_PAGE)), (''page'', JInt page),
                    (''state'', JStr ''all''), (''creator'', JStr author)]\<rparr>"

text \<open>The inner \<open>for it in items\<close>: an item with a truthy \<open>pull_request\<close> is a PR.\<close>

fun count_items :: "json list \<Rightarrow> int \<Rightarrow> int \<Rightarrow> error + int \<times> int" where
  "count_items [] issues_count prs_count = Inr (issues_count, prs_count)"
| "count_items (it # its) issues_count prs_count =
     (case py_get it ''pull_request'' of
        Inl err \<Rightarrow> Inl err
      | Inr v \<Rightarrow>
          if (case v of None \<Rightarrow> False | Some x \<Rightarrow> truthy x)
          then count_items its issues_count (prs_count + 1)
          else count_items its (issues_count + 1) prs_count)"

partial_function (option) fetch_issues_loop ::
  "env \<Rightarrow> string \<Rightarrow> string \<Rightarrow> int \<Rightarrow> int \<Rightarrow> int \<Rightarrow> world \<Rightarrow>
     (error + (int \<times> int) \<times> world) option" where
  "fetch_issues_loop e repo author page issues_count prs_count w =
     (case http_get e (issues_request repo author page) w of
        (resp, w1) \<Rightarrow>
          (case handle_rate_limit e resp w1 of
             Inl err \<Rightarrow> Some (Inl err)
           | Inr (retry, w2) \<Rightarrow>
               if retry then fetch_issues_loop e repo author page issues_count prs_count w2
               else if status_code resp \<noteq> 200
               then Some (Inr ((issues_count, prs_count), w2))
               else
                 (case body resp of
                    None \<Rightarrow> Some (Inl JSONDecodeError)
                  | Some items \<Rightarrow>
                      if \<not> truthy items then Some (Inr ((issues_count, prs_count), w2))
                      else
                        (case py_iter items of
                           Inl err \<Rightarrow> Some (Inl err)
                         | Inr its \<Rightarrow>
                             (case count_items its issues_count prs_count of
                                Inl err \<Rightarrow> Some (Inl err)
                              | Inr (issues_count', prs_count') \<Rightarrow>
                                  if length its < PER_PAGE
                                  then Some (Inr ((issues_count', prs_count'), w2))
                                  else fetch_issues_loop e repo author (page + 1)
                                         issues_count' prs_count' w2)))))"

declare fetch_issues_loop.simps [code]

definition fetch_issues_and_prs_for_author ::
  "env \<Rightarrow> string \<Rightarrow> string \<Rightarrow> world \<Rightarrow> (error + (int \<times> int) \<times> world) option" where
  "fetch_issues_and_prs_for_author e repo author w = fetch_issues_loop e repo author 1 0 0 w"

subsection \<open>\<open>get_user_meta\<close>\<close>

record user_meta =
  meta_avatar :: json
  meta_url :: json

definition user_request :: "string \<Rightarrow> request" where
  "user_request login = \<lparr>req_url = ''https://api.github.com/users/'' @ login, req_params = []\<rparr>"

definition profile_url :: "string \<Rightarrow> json" where
  "profile_url login = JStr (''https://github.com/'' @ login)"

definition get_user_meta :: "env \<Rightarrow> string \<Rightarrow> world \<Rightarrow> error + user_meta \<times> world" where
  "get_user_meta e login w =
     (case http_get e (user_request login) w of
        (resp, w1) \<Rightarrow>
          (case handle_rate_limit e resp w1 of
             Inl err \<Rightarrow> Inl err
           | Inr (retry, w2) \<Rightarrow>
               (case (if retry then http_get e (user_request login) w2 else (resp, w2)) of
                  (resp', w3) \<Rightarrow>
                    if status_code resp' = 200 then
                      (case body resp' of
                         None \<Rightarrow> Inl JSONDecodeError
                       | Some j \<Rightarrow>
                           (case py_get j ''avatar_url'' of
                              Inl err \<Rightarrow> Inl err
                            | Inr a \<Rightarrow>
                                (case py_get j ''html_url'' of
                                   Inl err \<Rightarrow> Inl err
                                 | Inr u \<Rightarrow>
                                     Inr (\<lparr>meta_avatar = (case a of None \<Rightarrow> JStr [] | Some v \<Rightarrow> v),
                                           meta_url = (case u of None \<Rightarrow> profile_url login
                                                       | Some v \<Rightarrow> v)\<rparr>, w3))))
                    else Inr (\<lparr>meta_avatar = JStr [], meta_url = profile_url login\<rparr>, w3))))"

subsection \<open>\<open>build_markdown\<close>\<close>

text \<open>
  The record \<open>main\<close> stores for a participant. \<open>main\<close> always sets the five keys, so
  the defaults of the \<open>.get\<close> calls in \<open>build_markdown\<close> are never used.
\<close>

record user_data =
  avatar :: json
  url :: json
  commits :: int
  prs :: int
  issues :: int

text \<open>
  A table row is kept as the values the row template interpolates, in column order:
  the rank, the avatar (absent when the avatar value is falsy, where the cell is
  empty), the login and its link target, and the numeric columns that follow the
  User column. The title line and the separator line are constant text and are left
  out; \<open>md_header\<close> is the list of column names.
\<close>

record md_row =
  row_rank :: nat
  row_avatar :: "json option"
  row_login :: string
  row_url :: json
  row_counts :: "int list"

record markdown =
  md_header :: "string list"
  md_rows :: "md_row list"

definition avatar_md :: "user_data \<Rightarrow> json option" where
  "avatar_md d = (if truthy (avatar d) then Some (avatar d) else None)"

definition build_markdown :: "(string \<times> user_data) list \<Rightarrow> bool \<Rightarrow> bool \<Rightarrow> markdown" where
  "build_markdown sorted_users include_prs_issues show_zero =
     (if include_prs_issues then
        \<lparr>md_header = [''Rank'', ''Avatar'', ''User'', ''Total Commits'', ''PRs'', ''Issues'', ''Total''],
         md_rows = map (\<lambda>(i, login, d).
             let n_commits = commits d; n_prs = prs d; n_issues = issues d;
                 total = n_commits + n_prs + n_issues
             in \<lparr>row_rank = i, row_avatar = avatar_md d, row_login = login, row_url = url d,
                 row_counts = [n_commits, n_prs, n_issues, total]\<rparr>)
           (enumerate 1 sorted_users)\<rparr>
      else
        \<lparr>md_header = [''Rank'', ''Avatar'', ''User'', ''Total Commits''],
         md_rows = map (\<lambda>(i, login, d).
             \<lparr>row_rank = i, row_avatar = avatar_md d, row_login = login, row_url = url d,
              row_counts = [commits d]\<rparr>)
           (enumerate 1 sorted_users)\<rparr>)"

subsection \<open>\<open>load_participants\<close>\<close>

text \<open>
  The participants file is either missing, unusable (any other exception while
  reading or decoding it), or a JSON array of identifier strings, the documented
  format. \<open>set(items)\<close> drops duplicates; a Python set is iterated in an order the
  language does not fix, and the model enumerates it in the order of the file, an
  identifier written twice at its last place.
  The run itself, \<open>run\<close> below, takes the participants as a list in whatever order
  they are iterated, and the theorems about it hold for every such list.
\<close>

datatype participants_file = FileNotFound | Unreadable | Items "string list"

fun load_participants :: "participants_file \<Rightarrow> error + string list" where
  "load_participants FileNotFound = Inl (SystemExit 1)"
| "load_participants Unreadable = Inl (SystemExit 1)"
| "load_participants (Items items) = Inr (remdups items)"

subsection \<open>\<open>main\<close>\<close>

record args =
  arg_include_zero :: bool
  arg_include_prs_issues :: bool
  arg_repos :: "string list option"

text \<open>
  The three counters are dicts from login to an int; a dict is an association list in
  insertion order, and storing under a key keeps the place of a key already present.
  Reading a counter, \<open>defaultdict(int)\<close> and \<open>.get(login, 0)\<close> both give 0 for a
  key that is not there.
\<close>

type_synonym counts = "(string \<times> int) list"

definition count_of :: "counts \<Rightarrow> string \<Rightarrow> int" where
  "count_of m k = (case map_of m k of None \<Rightarrow> 0 | Some v \<Rightarrow> v)"

text \<open>
  The loop over one repository's contributors (lines 159 to 166). A login that is a
  list or a dict cannot be hashed for the membership test, which raises.
\<close>

fun add_contributions :: "string list \<Rightarrow> json list \<Rightarrow> counts \<Rightarrow> error + counts" where
  "add_contributions participants [] commits_counts = Inr commits_counts"
| "add_contributions participants (c # cs) commits_counts =
     (case py_get c ''login'' of
        Inl err \<Rightarrow> Inl err
      | Inr lg \<Rightarrow>
          (case lg of
             None \<Rightarrow> add_contributions participants cs commits_counts
           | Some login \<Rightarrow>
               if \<not> truthy login then add_contributions participants cs commits_counts
               else
                 (case login of
                    JStr s \<Rightarrow>
                      if s \<notin> set participants
                      then add_contributions participants cs commits_counts
                      else
                        (case py_get c ''contributions'' of
                           Inl err \<Rightarrow> Inl err
                         | Inr ctr \<Rightarrow>
                             (case py_add (count_of commits_counts s)
                                     (case ctr of None \<Rightarrow> JInt 0 | Some v \<Rightarrow> v) of
                                Inl err \<Rightarrow> Inl err
                              | Inr n \<Rightarrow>
                                  add_contributions participants cs
                                    (AList.update s n commits_counts)))
                  | JArr xs \<Rightarrow> Inl TypeError
                  | JObj kvs \<Rightarrow> Inl TypeError
                  | _ \<Rightarrow> add_contributions participants cs commits_counts)))"

text \<open>The loop over the repositories (lines 156 to 166).\<close>

fun count_commits ::
  "env \<Rightarrow> string list \<Rightarrow> string list \<Rightarrow> counts \<Rightarrow> world \<Rightarrow> (error + counts \<times> world) option" where
  "count_commits e [] participants commits_counts w = Some (Inr (commits_counts, w))"
| "count_commits e (repo # rest) participants commits_counts w =
     (case fetch_contributors_for_repo e repo w of
        None \<Rightarrow> None
      | Some (Inl err) \<Rightarrow> Some (Inl err)
      | Some (Inr (contribs, w1)) \<Rightarrow>
          (case add_contributions participants contribs commits_counts of
             Inl err \<Rightarrow> Some (Inl err)
           | Inr commits_counts' \<Rightarrow> count_commits e rest participants commits_counts' w1))"

text \<open>The loop over the participants for one repository (lines 172 to 177).\<close>

fun count_for_logins ::
  "env \<Rightarrow> string \<Rightarrow> string list \<Rightarrow> counts \<times> counts \<Rightarrow> world \<Rightarrow>
     (error + (counts \<times> counts) \<times> world) option" where
  "count_for_logins e repo [] (issues_counts, prs_counts) w =
     Some (Inr ((issues_counts, prs_counts), w))"
| "count_for_logins e repo (login # rest) (issues_counts, prs_counts) w =
     (case fetch_issues_and_prs_for_author e repo login w of
        None \<Rightarrow> None
      | Some (Inl err) \<Rightarrow> Some (Inl err)
      | Some (Inr ((i_count, p_count), w1)) \<Rightarrow>
          count_for_logins e repo rest
            (if i_count \<noteq> 0
             then AList.update login (count_of issues_counts login + i_count) issues_counts
             else issues_counts,
             if p_count \<noteq> 0
             then AList.update login (count_of prs_counts login + p_count) prs_counts
             else prs_counts) w1)"

text \<open>The loop over the repositories (lines 170 to 177).\<close>

fun count_prs_issues ::
  "env \<Rightarrow> string list \<Rightarrow> string list \<Rightarrow> counts \<times> counts \<Rightarrow> world \<Rightarrow>
     (error + (counts \<times> counts) \<times> world) option" where
  "count_prs_issues e [] participants ip w = Some (Inr (ip, w))"
| "count_prs_issues e (repo # rest) participants ip w =
     (case count_for_logins e repo participants ip w of
        None \<Rightarrow> None
      | Some (Inl err) \<Rightarrow> Some (Inl err)
      | Some (Inr (ip', w1)) \<Rightarrow> count_prs_issues e rest participants ip' w1)"

text \<open>
  The loop that builds \<open>users\<close> (lines 181 to 195). The dict keeps insertion order;
  storing under a key already present keeps that key's place.
\<close>

fun collect_users ::
  "env \<Rightarrow> bool \<Rightarrow> counts \<Rightarrow> counts \<Rightarrow> counts \<Rightarrow> string list \<Rightarrow>
     (string \<times> user_data) list \<Rightarrow> world \<Rightarrow> error + (string \<times> user_data) list \<times> world" where
  "collect_users e include_zero commits_counts prs_counts issues_counts [] users w =
     Inr (users, w)"
| "collect_users e include_zero commits_counts prs_counts issues_counts (login # rest) users w =
     (let n_commits = count_of commits_counts login;
          n_prs = count_of prs_counts login;
          n_issues = count_of issues_counts login;
          total = n_commits + n_prs + n_issues
      in if \<not> include_zero \<and> total = 0
         then collect_users e include_zero commits_counts prs_counts issues_counts rest users w
         else
           (case get_user_meta e login w of
              Inl err \<Rightarrow> Inl err
            | Inr (meta, w1) \<Rightarrow>
                collect_users e include_zero commits_counts prs_counts issues_counts rest
                  (AList.update login
                     \<lparr>avatar = meta_avatar meta, url = meta_url meta,
                      commits = n_commits, prs = n_prs, issues = n_issues\<rparr> users) w1))"

text \<open>
  \<open>sorted(..., reverse=True)\<close> is a stable sort into non-increasing key order: it is
  the stable sort by the negated key.
\<close>

definition sort_users :: "bool \<Rightarrow> (string \<times> user_data) list \<Rightarrow> (string \<times> user_data) list" where
  "sort_users include_prs_issues users =
     (if include_prs_issues
      then sort_key (\<lambda>x. - (commits (snd x) + prs (snd x) + issues (snd x))) users
      else sort_key (\<lambda>x. - commits (snd x)) users)"

text \<open>\<open>repos = args.repos if args.repos else REPOS\<close> (line 139).\<close>

definition repos_of :: "args \<Rightarrow> string list" where
  "repos_of a = (case arg_repos a of None \<Rightarrow> REPOS | Some rs \<Rightarrow> if rs = [] then REPOS else rs)"

text \<open>
  The counting half of \<open>main\<close> (lines 152 to 177); the result is the three counters
  \<open>(commits_counts, prs_counts, issues_counts)\<close>.
\<close>

definition count_all ::
  "env \<Rightarrow> args \<Rightarrow> string list \<Rightarrow> world \<Rightarrow> (error + (counts \<times> counts \<times> counts) \<times> world) option" where
  "count_all e a participants w =
     (case count_commits e (repos_of a) participants [] w of
        None \<Rightarrow> None
      | Some (Inl err) \<Rightarrow> Some (Inl err)
      | Some (Inr (commits_counts, w1)) \<Rightarrow>
          if arg_include_prs_issues a then
            (case count_prs_issues e (repos_of a) participants ([], []) w1 of
               None \<Rightarrow> None
             | Some (Inl err) \<Rightarrow> Some (Inl err)
             | Some (Inr ((issues_counts, prs_counts), w2)) \<Rightarrow>
                 Some (Inr ((commits_counts, prs_counts, issues_counts), w2)))
          else Some (Inr ((commits_counts, [], []), w1)))"

text \<open>
  \<open>run\<close> is \<open>main\<close> from line 152 on, for the participants already loaded (in their
  iteration order); its result is the markdown written to the output file.
\<close>

definition run :: "env \<Rightarrow> args \<Rightarrow> string list \<Rightarrow> world \<Rightarrow> (error + markdown \<times> world) option" where
  "run e a participants w =
     (case count_all e a participants w of
        None \<Rightarrow> None
      | Some (Inl err) \<Rightarrow> Some (Inl err)
      | Some (Inr ((commits_counts, prs_counts, issues_counts), w2)) \<Rightarrow>
          (case collect_users e (arg_include_zero a) commits_counts prs_counts
                  issues_counts participants [] w2 of
             Inl err \<Rightarrow> Some (Inl err)
           | Inr (users, w3) \<Rightarrow>
               Some (Inr (build_markdown
                            (sort_users (arg_include_prs_issues a) users)
                            (arg_include_prs_issues a) (arg_include_zero a), w3))))"

definition main ::
  "env \<Rightarrow> args \<Rightarrow> participants_file \<Rightarrow> world \<Rightarrow> (error + markdown \<times> world) option" where
  "main e a file w =
     (case load_participants file of
        Inl err \<Rightarrow> Some (Inl err)
      | Inr participants \<Rightarrow>
          if participants = [] then Some (Inl (SystemExit 1))
          else run e a participants w)"

subsection \<open>The rate-limit signal\<close>

text \<open>
  The condition \<open>handle_rate_limit\<close> tests before it reads the reset time: status 403,
  the remaining quota is the string \<open>0\<close>, and the reset header is there and not empty.
\<close>

definition rate_limit_signal :: "response \<Rightarrow> bool" where
  "rate_limit_signal resp =
     (status_code resp = 403 \<and> headers resp ''X-RateLimit-Remaining'' = Some ''0'' \<and>
      (case headers resp ''X-RateLimit-Reset'' of None \<Rightarrow> False | Some r \<Rightarrow> r \<noteq> []))"

subsection \<open>Notions used in the statements\<close>

text \<open>
  The key \<open>main\<close> sorts by (the two lambdas of lines 199 and 201), and the numeric
  cells \<open>build_markdown\<close> writes for a participant in either layout.
\<close>

definition user_key :: "bool \<Rightarrow> user_data \<Rightarrow> int" where
  "user_key include_prs_issues d =
     (if include_prs_issues then commits d + prs d + issues d else commits d)"

definition cells :: "bool \<Rightarrow> user_data \<Rightarrow> int list" where
  "cells include_prs_issues d =
     (if include_prs_issues then [commits d, prs d, issues d, commits d + prs d + issues d]
      else [commits d])"



subsection \<open>Responses and environments used as examples\<close>

definition ok_response :: "json \<Rightarrow> response" where
  "ok_response j = \<lparr>status_code = 200, headers = Map.empty, body = Some j\<rparr>"

definition not_found_response :: response where
  "not_found_response = \<lparr>status_code = 404, headers = Map.empty, body = None\<rparr>"

definition rate_limited_response :: "string \<Rightarrow> response" where
  "rate_limited_response reset =
     \<lparr>status_code = 403,
      headers = [''X-RateLimit-Remaining'' \<mapsto> ''0'', ''X-RateLimit-Reset'' \<mapsto> reset],
      body = None\<rparr>"

definition contributor :: "string \<Rightarrow> int \<Rightarrow> json" where
  "contributor login n = JObj [(''login'', JStr login), (''contributions'', JInt n)]"

definition w_init :: world where
  "w_init = \<lparr>sent = [], sleeps = []\<rparr>"

text \<open>Every request fails with 404.\<close>

definition ex_env_failure :: env where
  "ex_env_failure = \<lparr>respond = (\<lambda>n req. not_found_response), clock = (\<lambda>n. 0)\<rparr>"


text \<open>Two full pages of contributors, then an empty page.\<close>

definition ex_env_two_pages :: env where
  "ex_env_two_pages =
     \<lparr>respond = (\<lambda>n req.
        if n = 0 then ok_response (JArr (replicate 100 (contributor ''a'' 1)))
        else if n = 1 then ok_response (JArr (replicate 100 (contributor ''b'' 2)))
        else ok_response (JArr [])),
      clock = (\<lambda>n. 0)\<rparr>"

text \<open>
  The first request is rate limited until time 100, read at time 40; the second
  request gets a short page.
\<close>

definition ex_env_rate_limited :: env where
  "ex_env_rate_limited =
     \<lparr>respond = (\<lambda>n req.
        if n = 0 then rate_limited_response ''100''
        else ok_response (JArr [contributor ''a'' 3])),
      clock = (\<lambda>n. 40)\<rparr>"

text \<open>
  One repository \<open>r\<close>. Its contributors are \<open>a\<close> (3 commits), \<open>x\<close> (9) and \<open>b\<close> (7);
  \<open>a\<close> has opened one issue and one pull request; every other request fails.
\<close>

definition ex_env_board :: env where
  "ex_env_board =
     \<lparr>respond = (\<lambda>n req.
        if req = contributors_request ''r'' 1
        then ok_response (JArr [contributor ''a'' 3, contributor ''x'' 9, contributor ''b'' 7])
        else if req = issues_request ''r'' ''a'' 1
        then ok_response
               (JArr [JObj [(''number'', JInt 1)],
                      JObj [(''number'', JInt 2),
                            (''pull_request'', JObj [(''url'', JStr ''u'')])]])
        else not_found_response),
      clock = (\<lambda>n. 0)\<rparr>"

definition ex_args :: args where
  "ex_args =
     \<lparr>arg_include_zero = False, arg_include_prs_issues = True, arg_repos = Some [''r'']\<rparr>"

definition ex_counts_world :: world where
  "ex_counts_world =
     \<lparr>sent = [contributors_request ''r'' 1, issues_request ''r'' ''a'' 1,
              issues_request ''r'' ''b'' 1, issues_request ''r'' ''z'' 1],
      sleeps = []\<rparr>"

definition ex_board_world :: world where
  "ex_board_world =
     \<lparr>sent = [contributors_request ''r'' 1, issues_request ''r'' ''a'' 1,
              issues_request ''r'' ''b'' 1, issues_request ''r'' ''z'' 1,
              user_request ''a'', user_request ''b''],
      sleeps = []\<rparr>"

definition ex_board :: markdown where
  "ex_board =
     \<lparr>md_header = [''Rank'', ''Avatar'', ''User'', ''Total Commits'', ''PRs'', ''Issues'', ''Total''],
      md_rows =
        [\<lparr>row_rank = 1, row_avatar = None, row_login = ''b'',
          row_url = JStr ''https://github.com/b'', row_counts = [7, 0, 0, 7]\<rparr>,
         \<lparr>row_rank = 2, row_avatar = None, row_login = ''a'',
          row_url = JStr ''https://github.com/a'', row_counts = [3, 1, 1, 5]\<rparr>]\<rparr>"

definition ex_users :: "(string \<times> user_data) list" where
  "ex_users =
     [(''b'', \<lparr>avatar = JStr [], url = JStr ''https://github.com/b'',
               commits = 7, prs = 0, issues = 0\<rparr>),
      (''a'', \<lparr>avatar = JStr [], url = JStr ''https://github.com/a'',
               commits = 3, prs = 1, issues = 1\<rparr>)]"


section \<open>Properties\<close>

subsection \<open>\<open>handle_rate_limit\<close>\<close>

lemma handle_rate_limit_no_signal:
  "\<not> rate_limit_signal resp \<Longrightarrow> handle_rate_limit e resp w = Inr (False, w)"
  by (auto simp: rate_limit_signal_def handle_rate_limit_def Let_def split: option.splits)

lemma handle_rate_limit_signal:
  "rate_limit_signal resp \<Longrightarrow> headers resp ''X-RateLimit-Reset'' = Some r \<Longrightarrow>
   py_int r = Some ts \<Longrightarrow>
   handle_rate_limit e resp w = Inr (True, sleep (max 0 (ts - clock e (length (sent w))) + 2) w)"
  by (auto simp: rate_limit_signal_def handle_rate_limit_def Let_def split: option.splits)

lemma status_200_no_signal: "status_code resp = 200 \<Longrightarrow> \<not> rate_limit_signal resp"
  by (simp add: rate_limit_signal_def)

lemma py_int_100: "py_int ''100'' = Some 100"
  by (simp add: py_int_def strip_def is_space_def is_digit_def digit_val_def)

lemma rate_limited_response_signal: "rate_limit_signal (rate_limited_response ''100'')"
  by (simp add: rate_limit_signal_def rate_limited_response_def)

lemma rate_limited_response_reset:
  "headers (rate_limited_response ''100'') ''X-RateLimit-Reset'' = Some ''100''"
  by (simp add: rate_limited_response_def)




subsection \<open>One iteration of the contributors loop\<close>

lemma contributors_step_ok:
  assumes "status_code (respond e (length (sent w)) (contributors_request repo page)) = 200"
    and "body (respond e (length (sent w)) (contributors_request repo page)) = Some (JArr items)"
  shows "fetch_contributors_loop e repo page contributors w =
     (if items = []
      then Some (Inr (contributors, w\<lparr>sent := sent w @ [contributors_request repo page]\<rparr>))
      else if length items < PER_PAGE
      then Some (Inr (contributors @ items,
                      w\<lparr>sent := sent w @ [contributors_request repo page]\<rparr>))
      else fetch_contributors_loop e repo (page + 1) (contributors @ items)
             (w\<lparr>sent := sent w @ [contributors_request repo page]\<rparr>))"
  using assms
  by (subst fetch_contributors_loop.simps)
     (simp add: http_get_def handle_rate_limit_no_signal status_200_no_signal)

lemma contributors_step_rate_limited:
  assumes "rate_limit_signal (respond e (length (sent w)) (contributors_request repo page))"
    and "headers (respond e (length (sent w)) (contributors_request repo page))
           ''X-RateLimit-Reset'' = Some r"
    and "py_int r = Some ts"
  shows "fetch_contributors_loop e repo page contributors w =
     fetch_contributors_loop e repo page contributors
       (sleep (max 0 (ts - clock e (Suc (length (sent w)))) + 2)
          (w\<lparr>sent := sent w @ [contributors_request repo page]\<rparr>))"
  using assms
  by (subst fetch_contributors_loop.simps)
     (simp add: http_get_def handle_rate_limit_signal)

text \<open>
  C5. When the first three requests of \<open>fetch_contributors_for_repo\<close> (pages 1, 2
  and 3) are answered with status 200 and with two pages of exactly \<open>PER_PAGE\<close> items
  and then an empty page, the function returns: its result is the first page followed
  by the second, each item once, after exactly these three requests.
\<close>

theorem fetch_contributors_two_full_pages:
  assumes "status_code (respond e (length (sent w)) (contributors_request repo 1)) = 200"
    and "body (respond e (length (sent w)) (contributors_request repo 1)) = Some (JArr p1)"
    and "length p1 = PER_PAGE"
    and "status_code (respond e (length (sent w) + 1) (contributors_request repo 2)) = 200"
    and "body (respond e (length (sent w) + 1) (contributors_request repo 2)) = Some (JArr p2)"
    and "length p2 = PER_PAGE"
    and "status_code (respond e (length (sent w) + 2) (contributors_request repo 3)) = 200"
    and "body (respond e (length (sent w) + 2) (contributors_request repo 3)) = Some (JArr [])"
  shows "fetch_contributors_for_repo e repo w =
     Some (Inr (p1 @ p2,
                w\<lparr>sent := sent w @ [contributors_request repo 1, contributors_request repo 2,
                                     contributors_request repo 3]\<rparr>))"
proof -
  let ?w1 = "w\<lparr>sent := sent w @ [contributors_request repo 1]\<rparr>"
  let ?w2 = "?w1\<lparr>sent := sent ?w1 @ [contributors_request repo 2]\<rparr>"
  have ne: "p1 \<noteq> []" "p2 \<noteq> []"
    using assms(3,6) by (auto simp: PER_PAGE_def)
  have "fetch_contributors_loop e repo 1 [] w = fetch_contributors_loop e repo 2 p1 ?w1"
    using contributors_step_ok[OF assms(1,2), of "[]"] ne assms(3) by simp
  also have "\<dots> = fetch_contributors_loop e repo 3 (p1 @ p2) ?w2"
    using contributors_step_ok[of e ?w1 repo 2 p2 p1] ne assms(4,5,6) by simp
  also have "\<dots> =
      Some (Inr (p1 @ p2, ?w2\<lparr>sent := sent ?w2 @ [contributors_request repo 3]\<rparr>))"
    using contributors_step_ok[of e ?w2 repo 3 "[]" "p1 @ p2"] assms(7,8) by simp
  finally show ?thesis
    by (simp add: fetch_contributors_for_repo_def)
qed

theorem fetch_contributors_two_full_pages_witness:
  "fetch_contributors_for_repo ex_env_two_pages ''r'' w_init =
     Some (Inr (replicate 100 (contributor ''a'' 1) @ replicate 100 (contributor ''b'' 2),
                w_init\<lparr>sent := [contributors_request ''r'' 1, contributors_request ''r'' 2,
                                  contributors_request ''r'' 3]\<rparr>))"
  using fetch_contributors_two_full_pages
          [of ex_env_two_pages w_init "''r''" "replicate 100 (contributor ''a'' 1)"
              "replicate 100 (contributor ''b'' 2)"]
  by (simp add: ex_env_two_pages_def w_init_def ok_response_def PER_PAGE_def)

text \<open>
  C6. In the contributors loop at page \<open>page\<close>, when the request is answered by a
  rate-limit signal with an integer reset time and the next request by status 200
  with a non-empty list, the loop has sent the request for the same page twice, has
  slept once, and has appended the items of the page once; it returns them if the
  page is short and goes on with page \<open>page + 1\<close> otherwise.
\<close>

theorem fetch_contributors_retries_same_page:
  assumes "rate_limit_signal (respond e (length (sent w)) (contributors_request repo page))"
    and "headers (respond e (length (sent w)) (contributors_request repo page))
           ''X-RateLimit-Reset'' = Some r"
    and "py_int r = Some ts"
    and "status_code (respond e (length (sent w) + 1) (contributors_request repo page)) = 200"
    and "body (respond e (length (sent w) + 1) (contributors_request repo page)) =
           Some (JArr items)"
    and "items \<noteq> []"
  shows "fetch_contributors_loop e repo page contributors w =
     (if length items < PER_PAGE
      then Some (Inr (contributors @ items,
             w\<lparr>sleeps := sleeps w @ [max 0 (ts - clock e (length (sent w) + 1)) + 2],
               sent := sent w @ [contributors_request repo page,
                                 contributors_request repo page]\<rparr>))
      else fetch_contributors_loop e repo (page + 1) (contributors @ items)
             (w\<lparr>sleeps := sleeps w @ [max 0 (ts - clock e (length (sent w) + 1)) + 2],
                sent := sent w @ [contributors_request repo page,
                                  contributors_request repo page]\<rparr>))"
proof -
  let ?w1 = "sleep (max 0 (ts - clock e (Suc (length (sent w)))) + 2)
               (w\<lparr>sent := sent w @ [contributors_request repo page]\<rparr>)"
  have "fetch_contributors_loop e repo page contributors w =
          fetch_contributors_loop e repo page contributors ?w1"
    by (rule contributors_step_rate_limited[OF assms(1,2,3)])
  also have "\<dots> =
     (if length items < PER_PAGE
      then Some (Inr (contributors @ items,
                      ?w1\<lparr>sent := sent ?w1 @ [contributors_request repo page]\<rparr>))
      else fetch_contributors_loop e repo (page + 1) (contributors @ items)
             (?w1\<lparr>sent := sent ?w1 @ [contributors_request repo page]\<rparr>))"
    using contributors_step_ok[of e ?w1 repo page items contributors] assms(4,5,6)
    by (simp add: sleep_def)
  finally show ?thesis
    by (simp add: sleep_def cong: if_cong)
qed

theorem fetch_contributors_retries_same_page_witness:
  "fetch_contributors_loop ex_env_rate_limited ''r'' 1 [] w_init =
     Some (Inr ([contributor ''a'' 3],
                w_init\<lparr>sent := [contributors_request ''r'' 1, contributors_request ''r'' 1],
                        sleeps := [62]\<rparr>))"
  using fetch_contributors_retries_same_page
          [of ex_env_rate_limited w_init "''r''" 1 "''100''" 100 "[contributor ''a'' 3]" "[]"]
        rate_limited_response_signal rate_limited_response_reset py_int_100
  by (simp add: ex_env_rate_limited_def w_init_def ok_response_def PER_PAGE_def)

text \<open>
  C8. In either paging loop, when the request for the current page is answered by a
  status other than 200 that is no rate-limit signal, the loop returns at once, and
  what it returns is what it had accumulated before: the contributors collected so
  far, or the two counts so far. The result is a value, not an exception.
\<close>

theorem fetch_stops_on_failure:
  "(status_code (respond e (length (sent w)) (contributors_request repo page)) \<noteq> 200 \<and>
    \<not> rate_limit_signal (respond e (length (sent w)) (contributors_request repo page)) \<longrightarrow>
    fetch_contributors_loop e repo page contributors w =
      Some (Inr (contributors, w\<lparr>sent := sent w @ [contributors_request repo page]\<rparr>))) \<and>
   (status_code (respond e (length (sent w)) (issues_request repo author page)) \<noteq> 200 \<and>
    \<not> rate_limit_signal (respond e (length (sent w)) (issues_request repo author page)) \<longrightarrow>
    fetch_issues_loop e repo author page issues_count prs_count w =
      Some (Inr ((issues_count, prs_count),
                 w\<lparr>sent := sent w @ [issues_request repo author page]\<rparr>)))"
proof (intro conjI impI)
  assume h: "status_code (respond e (length (sent w)) (contributors_request repo page)) \<noteq> 200 \<and>
    \<not> rate_limit_signal (respond e (length (sent w)) (contributors_request repo page))"
  show "fetch_contributors_loop e repo page contributors w =
      Some (Inr (contributors, w\<lparr>sent := sent w @ [contributors_request repo page]\<rparr>))"
    using h
    by (subst fetch_contributors_loop.simps)
       (simp add: http_get_def handle_rate_limit_no_signal)
next
  assume h: "status_code (respond e (length (sent w)) (issues_request repo author page)) \<noteq> 200 \<and>
    \<not> rate_limit_signal (respond e (length (sent w)) (issues_request repo author page))"
  show "fetch_issues_loop e repo author page issues_count prs_count w =
      Some (Inr ((issues_count, prs_count),
                 w\<lparr>sent := sent w @ [issues_request repo author page]\<rparr>))"
    using h
    by (subst fetch_issues_loop.simps)
       (simp add: http_get_def handle_rate_limit_no_signal)
qed

theorem fetch_stops_on_failure_witness:
  "fetch_contributors_loop ex_env_failure ''r'' 2 [contributor ''a'' 1] w_init =
     Some (Inr ([contributor ''a'' 1], w_init\<lparr>sent := [contributors_request ''r'' 2]\<rparr>)) \<and>
   fetch_issues_loop ex_env_failure ''r'' ''a'' 2 3 4 w_init =
     Some (Inr ((3, 4), w_init\<lparr>sent := [issues_request ''r'' ''a'' 2]\<rparr>))"
  using fetch_stops_on_failure
          [of ex_env_failure w_init "''r''" 2 "[contributor ''a'' 1]" "''a''" 3 4]
  by (simp add: ex_env_failure_def w_init_def not_found_response_def rate_limit_signal_def)

subsection \<open>\<open>get_user_meta\<close>\<close>



subsection \<open>The keys of the counters and of \<open>users\<close>\<close>


lemma keys_update: "fst ` set (AList.update k v m) = insert k (fst ` set m)"
  by (simp add: dom_update)

lemma keys_if_update:
  "fst ` set (if b then AList.update k v m else m) \<subseteq> insert k (fst ` set m)"
  by (simp add: keys_update subset_insertI)

lemma subset_step: "A \<subseteq> B \<union> R \<Longrightarrow> B \<subseteq> insert k C \<Longrightarrow> A \<subseteq> C \<union> insert k R"
  by blast

lemma subset_member_step: "A \<subseteq> insert k B \<union> P \<Longrightarrow> k \<in> P \<Longrightarrow> A \<subseteq> B \<union> P"
  by blast

lemma subset_trans_un: "A \<subseteq> B \<union> P \<Longrightarrow> B \<subseteq> C \<union> P \<Longrightarrow> A \<subseteq> C \<union> P"
  by blast

lemma filter_skip: "\<not> Q k \<Longrightarrow> {p \<in> set (k # ks). Q p} = {p \<in> set ks. Q p}"
  by auto

lemma filter_keep: "Q k \<Longrightarrow> {p \<in> set (k # ks). Q p} = insert k {p \<in> set ks. Q p}"
  by auto


lemma add_contributions_step:
  assumes "add_contributions ps (c # cs) cc = Inr cc'"
  shows "add_contributions ps cs cc = Inr cc' \<or>
         (\<exists>s n ctr. s \<in> set ps \<and> py_get c ''contributions'' = Inr ctr \<and>
            py_add (count_of cc s) (case ctr of None \<Rightarrow> JInt 0 | Some v \<Rightarrow> v) = Inr n \<and>
            add_contributions ps cs (AList.update s n cc) = Inr cc')"
proof (cases "py_get c ''login''")
  case (Inl err)
  with assms show ?thesis by simp
next
  case (Inr lg)
  show ?thesis
  proof (cases lg)
    case None
    with Inr assms show ?thesis by simp
  next
    case (Some login)
    show ?thesis
    proof (cases "truthy login")
      case False
      with Some Inr assms show ?thesis by simp
    next
      case True
      show ?thesis
      proof (cases login)
        case (JStr s)
        show ?thesis
        proof (cases "s \<in> set ps")
          case False
          with JStr True Some Inr assms show ?thesis by simp
        next
          case mem: True
          from JStr True Some Inr assms mem show ?thesis
            by (simp split: sum.splits) blast
        qed
      qed (use True Some Inr assms in simp_all)
    qed
  qed
qed

lemma add_contributions_keys:
  "add_contributions ps items cc = Inr cc' \<Longrightarrow> fst ` set cc' \<subseteq> fst ` set cc \<union> set ps"
proof (induction items arbitrary: cc)
  case Nil
  then show ?case by simp
next
  case (Cons c cs)
  from add_contributions_step[OF Cons.prems] show ?case
  proof (elim disjE exE conjE)
    assume "add_contributions ps cs cc = Inr cc'"
    then show ?thesis by (rule Cons.IH)
  next
    fix s n ctr
    assume s: "s \<in> set ps" and r: "add_contributions ps cs (AList.update s n cc) = Inr cc'"
    have "fst ` set cc' \<subseteq> insert s (fst ` set cc) \<union> set ps"
      using Cons.IH[OF r] by (simp only: keys_update)
    then show ?thesis using s by (rule subset_member_step)
  qed
qed

lemma count_commits_keys:
  "count_commits e repos ps cc w = Some (Inr (cc', w')) \<Longrightarrow> fst ` set cc' \<subseteq> fst ` set cc \<union> set ps"
proof (induction repos arbitrary: cc w)
  case Nil
  then show ?case by simp
next
  case (Cons repo rest)
  from Cons.prems obtain contribs w1 cc1 where
    a: "add_contributions ps contribs cc = Inr cc1"
    and r: "count_commits e rest ps cc1 w1 = Some (Inr (cc', w'))"
    by (auto split: option.splits sum.splits)
  have "fst ` set cc' \<subseteq> fst ` set cc1 \<union> set ps" by (rule Cons.IH[OF r])
  moreover have "fst ` set cc1 \<subseteq> fst ` set cc \<union> set ps" by (rule add_contributions_keys[OF a])
  ultimately show ?case by (rule subset_trans_un)
qed

lemma count_for_logins_keys:
  "count_for_logins e repo logins (ic, pc) w = Some (Inr ((ic', pc'), w')) \<Longrightarrow>
   fst ` set ic' \<subseteq> fst ` set ic \<union> set logins \<and> fst ` set pc' \<subseteq> fst ` set pc \<union> set logins"
proof (induction logins arbitrary: ic pc w)
  case Nil
  then show ?case by simp
next
  case (Cons login rest)
  from Cons.prems obtain i_count p_count w1 where
    r0: "count_for_logins e repo rest
          (if i_count \<noteq> 0 then AList.update login (count_of ic login + i_count) ic else ic,
           if p_count \<noteq> 0 then AList.update login (count_of pc login + p_count) pc else pc) w1
        = Some (Inr ((ic', pc'), w'))"
    by (auto split: option.splits sum.splits)
  define ic1 where
    "ic1 = (if i_count \<noteq> 0 then AList.update login (count_of ic login + i_count) ic else ic)"
  define pc1 where
    "pc1 = (if p_count \<noteq> 0 then AList.update login (count_of pc login + p_count) pc else pc)"
  have a: "fst ` set ic1 \<subseteq> insert login (fst ` set ic)"
    unfolding ic1_def by (rule keys_if_update)
  have b: "fst ` set pc1 \<subseteq> insert login (fst ` set pc)"
    unfolding pc1_def by (rule keys_if_update)
  have r: "count_for_logins e repo rest (ic1, pc1) w1 = Some (Inr ((ic', pc'), w'))"
    using r0 by (simp only: ic1_def pc1_def)
  have ih: "fst ` set ic' \<subseteq> fst ` set ic1 \<union> set rest \<and>
            fst ` set pc' \<subseteq> fst ` set pc1 \<union> set rest"
    by (rule Cons.IH[OF r])
  have s: "set (login # rest) = insert login (set rest)" by simp
  show ?case unfolding s
  proof (intro conjI)
    show "fst ` set ic' \<subseteq> fst ` set ic \<union> insert login (set rest)"
      by (rule subset_step[OF conjunct1[OF ih] a])
    show "fst ` set pc' \<subseteq> fst ` set pc \<union> insert login (set rest)"
      by (rule subset_step[OF conjunct2[OF ih] b])
  qed
qed

lemma count_prs_issues_keys:
  "count_prs_issues e repos ps (ic, pc) w = Some (Inr ((ic', pc'), w')) \<Longrightarrow>
   fst ` set ic' \<subseteq> fst ` set ic \<union> set ps \<and> fst ` set pc' \<subseteq> fst ` set pc \<union> set ps"
proof (induction repos arbitrary: ic pc w)
  case Nil
  then show ?case by simp
next
  case (Cons repo rest)
  from Cons.prems obtain ic1 pc1 w1 where
    f: "count_for_logins e repo ps (ic, pc) w = Some (Inr ((ic1, pc1), w1))"
    and r: "count_prs_issues e rest ps (ic1, pc1) w1 = Some (Inr ((ic', pc'), w'))"
    by (auto split: option.splits sum.splits)
  note ih = Cons.IH[OF r] and st = count_for_logins_keys[OF f]
  show ?case
  proof (intro conjI)
    show "fst ` set ic' \<subseteq> fst ` set ic \<union> set ps"
      by (rule subset_trans_un[OF conjunct1[OF ih] conjunct1[OF st]])
    show "fst ` set pc' \<subseteq> fst ` set pc \<union> set ps"
      by (rule subset_trans_un[OF conjunct2[OF ih] conjunct2[OF st]])
  qed
qed

lemma collect_users_keys:
  "collect_users e z cc pc ic ps users w = Inr (users', w') \<Longrightarrow>
   fst ` set users' =
     fst ` set users \<union> {p \<in> set ps. z \<or> count_of cc p + count_of pc p + count_of ic p \<noteq> 0}"
proof (induction ps arbitrary: users w)
  case Nil
  then show ?case by simp
next
  case (Cons login rest)
  let ?keep = "\<lambda>p. z \<or> count_of cc p + count_of pc p + count_of ic p \<noteq> 0"
  show ?case
  proof (cases "?keep login")
    case False
    with Cons.prems have "collect_users e z cc pc ic rest users w = Inr (users', w')"
      by (simp add: Let_def)
    from Cons.IH[OF this] have "fst ` set users' = fst ` set users \<union> {p \<in> set rest. ?keep p}" .
    moreover have "{p \<in> set (login # rest). ?keep p} = {p \<in> set rest. ?keep p}"
      using False by (rule filter_skip)
    ultimately show ?thesis by (simp only:)
  next
    case True
    with Cons.prems obtain d w1 where
      r: "collect_users e z cc pc ic rest (AList.update login d users) w1 = Inr (users', w')"
      by (auto simp: Let_def split: sum.splits)
    from Cons.IH[OF r]
    have "fst ` set users' = insert login (fst ` set users) \<union> {p \<in> set rest. ?keep p}"
      by (simp only: keys_update)
    moreover have "{p \<in> set (login # rest). ?keep p} = insert login {p \<in> set rest. ?keep p}"
      using True by (rule filter_keep)
    ultimately show ?thesis by (simp only: Un_insert_left Un_insert_right)
  qed
qed

subsection \<open>Sorting and rendering\<close>

lemma sorted_neg_key:
  fixes k :: "'a \<Rightarrow> int"
  shows "sorted_wrt (\<lambda>x y. k y \<le> k x) (sort_key (\<lambda>x. - k x) xs)"
proof -
  have "sorted (map (\<lambda>x. - k x) (sort_key (\<lambda>x. - k x) xs))"
    by (rule sorted_sort_key)
  then have "sorted_wrt (\<lambda>x y. - k x \<le> - k y) (sort_key (\<lambda>x. - k x) xs)"
    by (simp only: sorted_map)
  then show ?thesis
    by (rule sorted_wrt_mono_rel[rotated]) simp
qed

lemma set_sort_users: "set (sort_users b users) = set users"
  by (simp add: sort_users_def)

lemma sorted_sort_users:
  "sorted_wrt (\<lambda>x y. user_key b (snd y) \<le> user_key b (snd x)) (sort_users b users)"
  using sorted_neg_key[of "\<lambda>x. commits (snd x) + prs (snd x) + issues (snd x)" users]
    sorted_neg_key[of "\<lambda>x. commits (snd x)" users]
  by (simp add: sort_users_def user_key_def)

lemma build_markdown_rows:
  "md_rows (build_markdown su b z) =
     map (\<lambda>(i, login, d). \<lparr>row_rank = i, row_avatar = avatar_md d, row_login = login,
                           row_url = url d, row_counts = cells b d\<rparr>) (enumerate 1 su)"
  by (simp add: build_markdown_def cells_def Let_def)

lemma map_snd_comp_enumerate: "map (\<lambda>x. f (snd x)) (enumerate n xs) = map f xs"
proof -
  have "map (\<lambda>x. f (snd x)) (enumerate n xs) = map f (map snd (enumerate n xs))"
    by (simp only: map_map comp_def)
  then show ?thesis by (simp only: map_snd_enumerate)
qed

lemma build_markdown_logins: "map row_login (md_rows (build_markdown su b z)) = map fst su"
  using map_snd_comp_enumerate[of fst 1 su]
  by (simp add: build_markdown_rows case_prod_unfold comp_def)

lemma build_markdown_counts:
  "map row_counts (md_rows (build_markdown su b z)) = map (\<lambda>x. cells b (snd x)) su"
  using map_snd_comp_enumerate[of "\<lambda>x. cells b (snd x)" 1 su]
  by (simp add: build_markdown_rows case_prod_unfold comp_def)

lemma sum_take_cells: "sum_list (take 3 (cells b d)) = user_key b d"
  by (simp add: cells_def user_key_def)

lemma build_markdown_sorted:
  assumes "sorted_wrt (\<lambda>x y. user_key b (snd y) \<le> user_key b (snd x)) su"
  shows "sorted_wrt (\<lambda>r1 r2. sum_list (take 3 (row_counts r2)) \<le> sum_list (take 3 (row_counts r1)))
           (md_rows (build_markdown su b z))"
proof -
  have "sorted_wrt (\<lambda>c1 c2. sum_list (take 3 c2) \<le> sum_list (take 3 c1))
          (map (\<lambda>x. cells b (snd x)) su)"
    using assms by (simp only: sorted_wrt_map sum_take_cells)
  then have "sorted_wrt (\<lambda>c1 c2. sum_list (take 3 c2) \<le> sum_list (take 3 c1))
          (map row_counts (md_rows (build_markdown su b z)))"
    by (simp only: build_markdown_counts)
  then show ?thesis by (simp only: sorted_wrt_map)
qed

lemma run_SomeD:
  assumes "run e a ps w = Some (Inr (md, w'))"
  obtains cc pc ic w2 users where
    "count_all e a ps w = Some (Inr ((cc, pc, ic), w2))"
    "collect_users e (arg_include_zero a) cc pc ic ps [] w2 = Inr (users, w')"
    "md = build_markdown (sort_users (arg_include_prs_issues a) users)
            (arg_include_prs_issues a) (arg_include_zero a)"
  using assms by (auto simp: run_def split: option.splits sum.splits)

lemma run_row_logins:
  assumes "run e a ps w = Some (Inr (md, w'))"
    and "count_all e a ps w = Some (Inr ((cc, pc, ic), w1))"
  shows "row_login ` set (md_rows md) =
     {p \<in> set ps. arg_include_zero a \<or> count_of cc p + count_of pc p + count_of ic p \<noteq> 0}"
proof -
  from assms(1) obtain cc' pc' ic' w2 users where
    c: "count_all e a ps w = Some (Inr ((cc', pc', ic'), w2))"
    and u: "collect_users e (arg_include_zero a) cc' pc' ic' ps [] w2 = Inr (users, w')"
    and m: "md = build_markdown (sort_users (arg_include_prs_issues a) users)
            (arg_include_prs_issues a) (arg_include_zero a)"
    by (rule run_SomeD)
  from c assms(2) have eq: "cc' = cc" "pc' = pc" "ic' = ic" by simp_all
  from u eq have u': "collect_users e (arg_include_zero a) cc pc ic ps [] w2 = Inr (users, w')"
    by simp
  have "row_login ` set (md_rows md) = set (map row_login (md_rows md))" by simp
  also have "\<dots> = set (map fst (sort_users (arg_include_prs_issues a) users))"
    by (simp only: m build_markdown_logins)
  also have "\<dots> = fst ` set users"
    by (simp only: set_map set_sort_users)
  also have "\<dots> = fst ` set ([] :: (string \<times> user_data) list) \<union>
     {p \<in> set ps. arg_include_zero a \<or> count_of cc p + count_of pc p + count_of ic p \<noteq> 0}"
    by (rule collect_users_keys[OF u'])
  finally show ?thesis by simp
qed

lemma count_all_keys:
  assumes "count_all e a ps w = Some (Inr ((cc, pc, ic), w1))"
  shows "fst ` set cc \<subseteq> set ps \<and> fst ` set pc \<subseteq> set ps \<and> fst ` set ic \<subseteq> set ps"
proof -
  from assms obtain w0 where c: "count_commits e (repos_of a) ps [] w = Some (Inr (cc, w0))"
    by (auto simp: count_all_def split: option.splits sum.splits if_splits)
  have k: "fst ` set cc \<subseteq> set ps"
    using count_commits_keys[OF c] by simp
  show ?thesis
  proof (cases "arg_include_prs_issues a")
    case False
    with assms c have "pc = []" "ic = []"
      by (auto simp: count_all_def)
    with k show ?thesis by simp
  next
    case True
    with assms c obtain w2 where
      "count_prs_issues e (repos_of a) ps ([], []) w0 = Some (Inr ((ic, pc), w2))"
      by (auto simp: count_all_def split: option.splits sum.splits)
    from count_prs_issues_keys[OF this] k show ?thesis by simp
  qed
qed

lemma ex_count_all:
  "count_all ex_env_board ex_args [''a'', ''b'', ''z''] w_init =
     Some (Inr (([(''a'', 3), (''b'', 7)], [(''a'', 1)], [(''a'', 1)]), ex_counts_world))"
  by code_simp

lemma ex_run:
  "run ex_env_board ex_args [''a'', ''b'', ''z''] w_init = Some (Inr (ex_board, ex_board_world))"
  by code_simp

lemma ex_main:
  "main ex_env_board ex_args (Items [''a'', ''b'', ''z'']) w_init =
     Some (Inr (ex_board, ex_board_world))"
  by code_simp

subsection \<open>The leaderboard\<close>

text \<open>
  C1. The three counters only ever get keys from the participants, and every row of
  the leaderboard carries the login of a participant: for the run on any list of
  participants, and for \<open>main\<close> on the identifiers of the participants file.
\<close>

theorem only_participants_counted_and_rendered:
  "(count_all e a ps w = Some (Inr ((cc, pc, ic), w1)) \<longrightarrow>
      fst ` set cc \<subseteq> set ps \<and> fst ` set pc \<subseteq> set ps \<and> fst ` set ic \<subseteq> set ps) \<and>
   (run e a ps w = Some (Inr (md, w')) \<longrightarrow> (\<forall>r\<in>set (md_rows md). row_login r \<in> set ps)) \<and>
   (main e a (Items items) w = Some (Inr (md, w')) \<longrightarrow>
      (\<forall>r\<in>set (md_rows md). row_login r \<in> set items))"
proof -
  have rows: "row_login r \<in> set qs"
    if "run e a qs w = Some (Inr (md, w'))" and "r \<in> set (md_rows md)" for qs r
  proof -
    from that(1) obtain cc' pc' ic' w2 where
      "count_all e a qs w = Some (Inr ((cc', pc', ic'), w2))"
      by (rule run_SomeD)
    from run_row_logins[OF that(1) this]
    have "row_login ` set (md_rows md) =
      {p \<in> set qs. arg_include_zero a \<or> count_of cc' p + count_of pc' p + count_of ic' p \<noteq> 0}" .
    moreover have "row_login r \<in> row_login ` set (md_rows md)"
      using that(2) by (rule imageI)
    ultimately have "row_login r \<in>
      {p \<in> set qs. arg_include_zero a \<or> count_of cc' p + count_of pc' p + count_of ic' p \<noteq> 0}"
      by (simp only:)
    then show ?thesis by simp
  qed
  show ?thesis
  proof (intro conjI impI ballI)
    assume "count_all e a ps w = Some (Inr ((cc, pc, ic), w1))"
    from count_all_keys[OF this]
    show "fst ` set cc \<subseteq> set ps" "fst ` set pc \<subseteq> set ps" "fst ` set ic \<subseteq> set ps"
      by (rule conjunct1, rule conjunct2[THEN conjunct1], rule conjunct2[THEN conjunct2])
  next
    fix r
    assume "run e a ps w = Some (Inr (md, w'))" and "r \<in> set (md_rows md)"
    then show "row_login r \<in> set ps" by (rule rows)
  next
    fix r
    assume m: "main e a (Items items) w = Some (Inr (md, w'))" and r: "r \<in> set (md_rows md)"
    from m have "run e a (remdups items) w = Some (Inr (md, w'))"
      by (simp add: main_def split: if_splits)
    from rows[OF this r] show "row_login r \<in> set items" by simp
  qed
qed

theorem only_participants_counted_and_rendered_witness:
  "count_all ex_env_board ex_args [''a'', ''b'', ''z''] w_init =
     Some (Inr (([(''a'', 3), (''b'', 7)], [(''a'', 1)], [(''a'', 1)]), ex_counts_world)) \<and>
   main ex_env_board ex_args (Items [''a'', ''b'', ''z'']) w_init =
     Some (Inr (ex_board, ex_board_world)) \<and>
   map row_login (md_rows ex_board) = [''b'', ''a''] \<and>
   list_all (\<lambda>r. row_login r \<in> set [''a'', ''b'', ''z'']) (md_rows ex_board)"
  using only_participants_counted_and_rendered
          [of ex_env_board ex_args "[''a'', ''b'', ''z'']" w_init
              "[(''a'', 3), (''b'', 7)]" "[(''a'', 1)]" "[(''a'', 1)]" ex_counts_world
              ex_board ex_board_world "[''a'', ''b'', ''z'']"]
        ex_count_all ex_run ex_main
  by (simp add: ex_board_def)

text \<open>
  C2. In the layout with PR and issue columns the numeric columns are Total Commits,
  PRs, Issues and Total, and the cells of every row are the participant's commits,
  PRs and issues followed by their sum.
\<close>

theorem total_column_is_sum:
  "drop 3 (md_header (build_markdown su True z)) =
     [''Total Commits'', ''PRs'', ''Issues'', ''Total''] \<and>
   map row_counts (md_rows (build_markdown su True z)) =
     map (\<lambda>x. [commits (snd x), prs (snd x), issues (snd x),
                 commits (snd x) + prs (snd x) + issues (snd x)]) su \<and>
   (\<forall>r\<in>set (md_rows (build_markdown su True z)).
      \<exists>c p i. row_counts r = [c, p, i, c + p + i])"
proof (intro conjI ballI)
  show "drop 3 (md_header (build_markdown su True z)) =
     [''Total Commits'', ''PRs'', ''Issues'', ''Total'']"
    by (simp add: build_markdown_def)
  show m: "map row_counts (md_rows (build_markdown su True z)) =
     map (\<lambda>x. [commits (snd x), prs (snd x), issues (snd x),
                 commits (snd x) + prs (snd x) + issues (snd x)]) su"
    by (simp add: build_markdown_counts cells_def)
  fix r
  assume "r \<in> set (md_rows (build_markdown su True z))"
  then have "row_counts r \<in> set (map row_counts (md_rows (build_markdown su True z)))"
    by simp
  then obtain d :: user_data where
    "row_counts r = [commits d, prs d, issues d, commits d + prs d + issues d]"
    unfolding m by auto
  then show "\<exists>c p i. row_counts r = [c, p, i, c + p + i]" by blast
qed

theorem total_column_is_sum_witness:
  "map row_counts (md_rows (build_markdown ex_users True False)) = [[7, 0, 0, 7], [3, 1, 1, 5]] \<and>
   build_markdown ex_users True False = ex_board"
  using total_column_is_sum [of ex_users False]
  by (simp add: ex_users_def ex_board_def build_markdown_def enumerate_eq_zip avatar_md_def)

text \<open>
  C3. The rows of the leaderboard are in non-increasing order of the sum of their
  commits, PRs and issues cells. With PR and issue counting a row has the cells
  commits, PRs, issues and total, so the key is commits + PRs + issues, the total;
  without it a row has the commits cell only, and the key is the commit count.
\<close>

theorem rows_sorted_by_key:
  assumes "run e a ps w = Some (Inr (md, w'))"
  shows "sorted_wrt (\<lambda>r1 r2. sum_list (take 3 (row_counts r2)) \<le> sum_list (take 3 (row_counts r1)))
           (md_rows md) \<and>
         (\<forall>r\<in>set (md_rows md).
            if arg_include_prs_issues a then \<exists>c p i. row_counts r = [c, p, i, c + p + i]
            else \<exists>c. row_counts r = [c])"
proof -
  from assms obtain users where
    m: "md = build_markdown (sort_users (arg_include_prs_issues a) users)
            (arg_include_prs_issues a) (arg_include_zero a)"
    by (rule run_SomeD)
  have s: "sorted_wrt (\<lambda>r1 r2. sum_list (take 3 (row_counts r2)) \<le> sum_list (take 3 (row_counts r1)))
           (md_rows md)"
    unfolding m by (rule build_markdown_sorted[OF sorted_sort_users])
  have c: "if arg_include_prs_issues a then \<exists>c p i. row_counts r = [c, p, i, c + p + i]
            else \<exists>c. row_counts r = [c]" if "r \<in> set (md_rows md)" for r
  proof -
    from that have "row_counts r \<in> set (map row_counts (md_rows md))" by simp
    then obtain d :: user_data where "row_counts r = cells (arg_include_prs_issues a) d"
      unfolding m build_markdown_counts by auto
    then show ?thesis by (simp add: cells_def)
  qed
  from s c show ?thesis by blast
qed

theorem rows_sorted_by_key_witness:
  "run ex_env_board ex_args [''a'', ''b'', ''z''] w_init = Some (Inr (ex_board, ex_board_world)) \<and>
   map row_counts (md_rows ex_board) = [[7, 0, 0, 7], [3, 1, 1, 5]] \<and>
   sorted_wrt (\<lambda>r1 r2. sum_list (take 3 (row_counts r2)) \<le> sum_list (take 3 (row_counts r1)))
     (md_rows ex_board)"
  using rows_sorted_by_key [OF ex_run] ex_run
  by (simp add: ex_board_def)



subsection \<open>The sign of the counters\<close>



















end
